theory Spec2Isabelle
  imports Complex_Main "HOL-Library.AList"
begin

section \<open>Master process: the crash-restart backoff (src/core/master.js)\<close>

text \<open>
  The master process keeps a \<^verbatim>\<open>config\<close> object and a mutable \<^verbatim>\<open>workerStatus\<close>
  object. Their numeric fields hold non-negative integers in the source and are modelled
  as \<open>nat\<close>. JavaScript numbers are doubles: every product below is an integer times a
  power of two, which a double holds exactly for the magnitudes the source's
  configuration reaches (at most \<open>1000 * 2 ^ 9\<close>).
\<close>

record master_config =
  maxRestartAttempts :: nat
  restartDelay :: nat
  masterPort :: nat

record worker_status =
  pid :: "nat option"
  startTime :: "string option"
  restartCount :: nat
  lastRestartTime :: "string option"
  isRestarting :: bool

text \<open>
  The \<^verbatim>\<open>config\<close> constant of the source (\<^verbatim>\<open>masterPort\<close> at its default, taken when the
  environment variable \<^verbatim>\<open>MASTER_PORT\<close> is unset).
\<close>

definition config :: master_config where
  "config = \<lparr>maxRestartAttempts = 10, restartDelay = 1000, masterPort = 3100\<rparr>"

text \<open>
  \<^verbatim>\<open>
  function scheduleRestart() {
      if (workerStatus.restartCount >= config.maxRestartAttempts) { ...; return; }
      const delay = Math.min(config.restartDelay * Math.pow(2, workerStatus.restartCount), 30000);
      setTimeout(() => { restartWorker(); }, delay);
  }
  \<close>
  The result is the delay handed to \<^verbatim>\<open>setTimeout\<close>, or \<open>None\<close> when the function
  gives up and arms no timer.
\<close>

definition scheduleRestart :: "master_config \<Rightarrow> worker_status \<Rightarrow> nat option" where
  "scheduleRestart cfg ws =
     (if restartCount ws \<ge> maxRestartAttempts cfg then None
      else Some (min (restartDelay cfg * 2 ^ restartCount ws) 30000))"

section \<open>JavaScript values and strings\<close>

text \<open>
  A JavaScript string is a sequence of UTF-16 code units, here natural numbers;
  \<open>lit\<close> turns an ASCII literal of the source into one.
\<close>

type_synonym jsstring = "nat list"

definition lit :: "string \<Rightarrow> jsstring" where
  "lit s = map of_char s"

text \<open>
  The code units that \<^verbatim>\<open>String.prototype.trim\<close> strips: ECMAScript's WhiteSpace
  (tab, vertical tab, form feed, space, no-break space, the byte-order mark and the
  other space separators) and LineTerminator (line feed, carriage return, line and
  paragraph separator).
\<close>

definition isWhiteSpace :: "nat \<Rightarrow> bool" where
  "isWhiteSpace c \<longleftrightarrow>
     c = 9 \<or> c = 10 \<or> c = 11 \<or> c = 12 \<or> c = 13 \<or> c = 32 \<or> c = 160 \<or> c = 5760
     \<or> (8192 \<le> c \<and> c \<le> 8202) \<or> c = 8232 \<or> c = 8233 \<or> c = 8239 \<or> c = 8287
     \<or> c = 12288 \<or> c = 65279"

definition trim :: "jsstring \<Rightarrow> jsstring" where
  "trim s = rev (dropWhile isWhiteSpace (rev (dropWhile isWhiteSpace s)))"

text \<open>
  \<^verbatim>\<open>String.prototype.toLowerCase\<close>, as far as it can produce ASCII: the letters A to Z,
  and the Kelvin sign U+212A, the one code point outside ASCII whose lower case is an
  ASCII letter. Every other code unit stays outside ASCII under the real function and is
  left as it is here, so comparisons of the result with an ASCII literal agree with
  JavaScript.
\<close>

definition toLowerCaseUnit :: "nat \<Rightarrow> nat" where
  "toLowerCaseUnit c = (if 65 \<le> c \<and> c \<le> 90 then c + 32 else if c = 8490 then 107 else c)"

definition toLowerCase :: "jsstring \<Rightarrow> jsstring" where
  "toLowerCase s = map toLowerCaseUnit s"

text \<open>
  Numbers are doubles: a finite double is a rational, \<open>Finite 0\<close> being the positive
  zero; the negative zero and the three values that are no rationals are kept apart.
  \<^verbatim>\<open>JSON.parse\<close> gives \<open>NegZero\<close> for \<^verbatim>\<open>-0\<close> and an infinity for a literal beyond the
  range of doubles such as \<^verbatim>\<open>1e400\<close>.
\<close>

datatype js_number = Finite rat | NegZero | PosInfinity | NegInfinity | NaN

text \<open>
  The values a variable can hold. \<open>Arr\<close> and \<open>Obj\<close> are the arrays and plain objects
  that \<^verbatim>\<open>JSON.parse\<close> builds (own properties in the order in which they are
  enumerated); \<open>Opaque\<close> stands for every other value (functions, symbols, ...).
\<close>

datatype js_value =
    Undefined
  | Null
  | Bool bool
  | Num js_number
  | Str jsstring
  | Arr "js_value list"
  | Obj "(jsstring \<times> js_value) list"
  | Opaque nat

text \<open>ECMAScript's ToBoolean, the test behind \<^verbatim>\<open>if\<close>, \<^verbatim>\<open>!\<close> and \<^verbatim>\<open>&&\<close>.\<close>

fun truthy :: "js_value \<Rightarrow> bool" where
  "truthy Undefined = False"
| "truthy Null = False"
| "truthy (Bool b) = b"
| "truthy (Num (Finite r)) = (r \<noteq> 0)"
| "truthy (Num NegZero) = False"
| "truthy (Num NaN) = False"
| "truthy (Num _) = True"
| "truthy (Str s) = (s \<noteq> [])"
| "truthy (Arr _) = True"
| "truthy (Obj _) = True"
| "truthy (Opaque _) = True"

section \<open>Proxy configuration (src/utils/proxy-utils.js)\<close>

text \<open>
  \<^verbatim>\<open>parseProxyUrl\<close> calls four constructors that are not part of the repository: the
  platform's \<^verbatim>\<open>URL\<close> and the agents of the packages socks-proxy-agent,
  http-proxy-agent and https-proxy-agent. They are parameters of the model. Each may
  throw, which is the result \<open>None\<close>; of a parsed URL only \<^verbatim>\<open>protocol\<close> is read.
  \<open>'a\<close> is the type of agent objects.
\<close>

record url =
  protocol :: jsstring

record 'a proxy_env =
  newURL :: "jsstring \<Rightarrow> url option"
  newSocksProxyAgent :: "jsstring \<Rightarrow> 'a option"
  newHttpProxyAgent :: "jsstring \<Rightarrow> 'a option"
  newHttpsProxyAgent :: "jsstring \<Rightarrow> 'a option"

record 'a proxy_config =
  httpAgent :: 'a
  httpsAgent :: 'a
  proxyType :: jsstring

text \<open>An exception in flight, with the constructor that raised it.\<close>

datatype js_exception = URLError | SocksAgentError | HttpAgentError | HttpsAgentError

text \<open>
  The body of the \<^verbatim>\<open>try\<close> block, on the trimmed string: \<open>Inl\<close> is an exception that
  leaves the block, \<open>Inr None\<close> is \<^verbatim>\<open>return null\<close>.
  \<^verbatim>\<open>
  const url = new URL(trimmedUrl);
  const protocol = url.protocol.toLowerCase();
  if (protocol === 'socks5:' || protocol === 'socks4:' || protocol === 'socks:') {
      const socksAgent = new SocksProxyAgent(trimmedUrl);
      return { httpAgent: socksAgent, httpsAgent: socksAgent, proxyType: 'socks' };
  } else if (protocol === 'http:' || protocol === 'https:') {
      return { httpAgent: new HttpProxyAgent(trimmedUrl),
               httpsAgent: new HttpsProxyAgent(trimmedUrl), proxyType: 'http' };
  } else { console.warn(...); return null; }
  \<close>
\<close>

definition parseProxyUrl_try ::
  "'a proxy_env \<Rightarrow> jsstring \<Rightarrow> js_exception + 'a proxy_config option" where
  "parseProxyUrl_try env trimmedUrl =
     (case newURL env trimmedUrl of
        None \<Rightarrow> Inl URLError
      | Some u \<Rightarrow>
          let p = toLowerCase (protocol u) in
          if p = lit ''socks5:'' \<or> p = lit ''socks4:'' \<or> p = lit ''socks:'' then
            (case newSocksProxyAgent env trimmedUrl of
               None \<Rightarrow> Inl SocksAgentError
             | Some socksAgent \<Rightarrow>
                 Inr (Some \<lparr>httpAgent = socksAgent, httpsAgent = socksAgent,
                            proxyType = lit ''socks''\<rparr>))
          else if p = lit ''http:'' \<or> p = lit ''https:'' then
            (case newHttpProxyAgent env trimmedUrl of
               None \<Rightarrow> Inl HttpAgentError
             | Some a \<Rightarrow>
                 (case newHttpsProxyAgent env trimmedUrl of
                    None \<Rightarrow> Inl HttpsAgentError
                  | Some b \<Rightarrow>
                      Inr (Some \<lparr>httpAgent = a, httpsAgent = b, proxyType = lit ''http''\<rparr>)))
          else Inr None)"

text \<open>
  The whole function. The two guards run before the \<^verbatim>\<open>try\<close>; the \<^verbatim>\<open>catch\<close> turns
  every exception of the block into \<^verbatim>\<open>return null\<close>. The result type keeps the
  alternative of an exception that reaches the caller (\<open>Inl\<close>).
  \<^verbatim>\<open>
  if (!proxyUrl || typeof proxyUrl !== 'string') return null;
  const trimmedUrl = proxyUrl.trim();
  if (!trimmedUrl) return null;
  try { ... } catch (error) { console.error(...); return null; }
  \<close>
\<close>

definition parseProxyUrl ::
  "'a proxy_env \<Rightarrow> js_value \<Rightarrow> js_exception + 'a proxy_config option" where
  "parseProxyUrl env proxyUrl =
     (if \<not> truthy proxyUrl then Inr None
      else case proxyUrl of
        Str s \<Rightarrow>
          let trimmedUrl = trim s in
          if \<not> truthy (Str trimmedUrl) then Inr None
          else (case parseProxyUrl_try env trimmedUrl of
                  Inl error \<Rightarrow> Inr None
                | Inr r \<Rightarrow> Inr r)
      | _ \<Rightarrow> Inr None)"

text \<open>
  Stand-ins for the external constructors, for concrete runs. \<open>schemeURL\<close> reads the
  scheme off a string as the URL standard does (an ASCII letter, then letters, digits,
  \<open>+\<close>, \<open>-\<close> or \<open>.\<close>, up to the first colon, lower-cased) and rejects a string without
  one. \<open>acceptingEnv\<close> builds an agent from every string; in \<open>rejectingEnv\<close> the SOCKS
  agent's constructor throws on a string with a percent sign.
\<close>

definition isSchemeUnit :: "nat \<Rightarrow> bool" where
  "isSchemeUnit c \<longleftrightarrow>
     (65 \<le> c \<and> c \<le> 90) \<or> (97 \<le> c \<and> c \<le> 122) \<or> (48 \<le> c \<and> c \<le> 57)
     \<or> c = 43 \<or> c = 45 \<or> c = 46"

definition schemeURL :: "jsstring \<Rightarrow> url option" where
  "schemeURL s =
     (case takeWhile (\<lambda>c. c \<noteq> 58) s of
        [] \<Rightarrow> None
      | c # cs \<Rightarrow>
          if 58 \<in> set s \<and> \<not> (48 \<le> c \<and> c \<le> 57) \<and> c \<noteq> 43 \<and> c \<noteq> 45 \<and> c \<noteq> 46
             \<and> list_all isSchemeUnit (c # cs)
          then Some \<lparr>protocol = toLowerCase (c # cs) @ [58]\<rparr>
          else None)"

definition acceptingEnv :: "nat proxy_env" where
  "acceptingEnv =
     \<lparr>newURL = schemeURL,
      newSocksProxyAgent = (\<lambda>s. Some 1),
      newHttpProxyAgent = (\<lambda>s. Some 2),
      newHttpsProxyAgent = (\<lambda>s. Some 3)\<rparr>"

definition rejectingEnv :: "nat proxy_env" where
  "rejectingEnv =
     \<lparr>newURL = schemeURL,
      newSocksProxyAgent = (\<lambda>s. if 37 \<in> set s then None else Some 1),
      newHttpProxyAgent = (\<lambda>s. Some 2),
      newHttpsProxyAgent = (\<lambda>s. Some 3)\<rparr>"

section \<open>The JSON merger (src/scripts/merge-json-files.js)\<close>

text \<open>\<^verbatim>\<open>String.prototype.startsWith\<close> and \<^verbatim>\<open>endsWith\<close>, on code units.\<close>

definition startsWith :: "jsstring \<Rightarrow> jsstring \<Rightarrow> bool" where
  "startsWith s t \<longleftrightarrow> take (length t) s = t"

definition endsWith :: "jsstring \<Rightarrow> jsstring \<Rightarrow> bool" where
  "endsWith s t \<longleftrightarrow> length t \<le> length s \<and> drop (length s - length t) s = t"

text \<open>
  \<^verbatim>\<open>mergedData\<close> starts as \<^verbatim>\<open>{}\<close>: an object with no own property whose prototype is
  \<^verbatim>\<open>Object.prototype\<close>. An object is its own properties, in insertion order, and its
  prototype. The prototype matters because \<^verbatim>\<open>JSON.parse\<close> makes \<^verbatim>\<open>"__proto__"\<close> an
  ordinary own key of the object it builds, while \<^verbatim>\<open>Object.assign\<close> writes every key
  with an ordinary assignment, and assigning to \<^verbatim>\<open>__proto__\<close> runs the setter inherited
  from \<^verbatim>\<open>Object.prototype\<close>.
\<close>

datatype js_proto = ObjectPrototype | NullPrototype | ValuePrototype js_value

record js_object =
  own :: "(jsstring \<times> js_value) list"
  proto :: js_proto

definition emptyObject :: js_object where
  "emptyObject = \<lparr>own = [], proto = ObjectPrototype\<rparr>"

text \<open>
  Does an assignment to \<^verbatim>\<open>__proto__\<close>, on an object without that own key, reach the
  setter of \<^verbatim>\<open>Object.prototype\<close>? Not below a \<^verbatim>\<open>null\<close> prototype, and not when the
  prototype is a parsed object that has \<^verbatim>\<open>__proto__\<close> as an own data property.
\<close>

fun protoSetterReachable :: "js_proto \<Rightarrow> bool" where
  "protoSetterReachable ObjectPrototype = True"
| "protoSetterReachable NullPrototype = False"
| "protoSetterReachable (ValuePrototype (Obj props)) = (lit ''__proto__'' \<notin> fst ` set props)"
| "protoSetterReachable (ValuePrototype _) = True"

text \<open>
  The setter: an object or array becomes the prototype, \<^verbatim>\<open>null\<close> removes it, any other
  value is ignored.
\<close>

fun setPrototype :: "js_object \<Rightarrow> js_value \<Rightarrow> js_object" where
  "setPrototype obj Null = obj\<lparr>proto := NullPrototype\<rparr>"
| "setPrototype obj (Obj props) = obj\<lparr>proto := ValuePrototype (Obj props)\<rparr>"
| "setPrototype obj (Arr xs) = obj\<lparr>proto := ValuePrototype (Arr xs)\<rparr>"
| "setPrototype obj (Opaque n) = obj\<lparr>proto := ValuePrototype (Opaque n)\<rparr>"
| "setPrototype obj _ = obj"

text \<open>
  The assignment \<^verbatim>\<open>obj[k] = v\<close>. An own property is overwritten in place; a new key is
  appended (\<open>AList.update\<close> does both), except for \<^verbatim>\<open>__proto__\<close> reaching the setter.
\<close>

definition setProp :: "js_object \<Rightarrow> jsstring \<Rightarrow> js_value \<Rightarrow> js_object" where
  "setProp obj k v =
     (if k \<notin> fst ` set (own obj) \<and> k = lit ''__proto__'' \<and> protoSetterReachable (proto obj)
      then setPrototype obj v
      else obj\<lparr>own := AList.update k v (own obj)\<rparr>)"

text \<open>
  The read \<^verbatim>\<open>obj.k\<close>, for a key that is neither an array index, \<^verbatim>\<open>length\<close> nor a
  built-in of \<^verbatim>\<open>Object.prototype\<close> or \<^verbatim>\<open>Array.prototype\<close> (the merger reads
  \<^verbatim>\<open>clientSecret\<close> and \<^verbatim>\<open>expiresAt\<close>): the own property, else the own property of a
  parsed object serving as prototype, else \<^verbatim>\<open>undefined\<close>.
\<close>

definition getProp :: "js_object \<Rightarrow> jsstring \<Rightarrow> js_value" where
  "getProp obj k =
     (case map_of (own obj) k of
        Some v \<Rightarrow> v
      | None \<Rightarrow>
          (case proto obj of
             ValuePrototype (Obj props) \<Rightarrow> (case map_of props k of Some v \<Rightarrow> v | None \<Rightarrow> Undefined)
           | _ \<Rightarrow> Undefined))"

text \<open>\<^verbatim>\<open>delete obj.k\<close> removes an own property and nothing else.\<close>

definition deleteProp :: "js_object \<Rightarrow> jsstring \<Rightarrow> js_object" where
  "deleteProp obj k = obj\<lparr>own := AList.delete k (own obj)\<rparr>"

text \<open>
  \<^verbatim>\<open>Object.assign(target, source)\<close> for a parsed source object: its keys are assigned in
  order.
\<close>

definition objectAssign :: "js_object \<Rightarrow> (jsstring \<times> js_value) list \<Rightarrow> js_object" where
  "objectAssign target props = fold (\<lambda>(k, v) obj. setProp obj k v) props target"

text \<open>
  The state of the loop over the files, and one round of it. A directory entry is its
  name and what \<^verbatim>\<open>JSON.parse(fs.readFileSync(...))\<close> gives for it, \<open>None\<close> when either
  call throws (the inner \<^verbatim>\<open>catch\<close>).
  \<^verbatim>\<open>
  if (file.startsWith('merge-kiro-') && file.endsWith('-auth-token.json')) { skipCount++; continue; }
  try {
      const jsonData = JSON.parse(fs.readFileSync(filePath, 'utf-8'));
      if (typeof jsonData === 'object' && jsonData !== null && !Array.isArray(jsonData)) {
           Object.assign(mergedData, jsonData); successCount++;
      } else { skipCount++; continue; }
  } catch (error) { skipCount++; }
  \<close>
\<close>

record merge_state =
  mergedData :: js_object
  successCount :: nat
  skipCount :: nat

definition mergeFile :: "jsstring \<times> js_value option \<Rightarrow> merge_state \<Rightarrow> merge_state" where
  "mergeFile entry st =
     (let file = fst entry in
      if startsWith file (lit ''merge-kiro-'') \<and> endsWith file (lit ''-auth-token.json'')
      then st\<lparr>skipCount := skipCount st + 1\<rparr>
      else case snd entry of
          None \<Rightarrow> st\<lparr>skipCount := skipCount st + 1\<rparr>
        | Some (Obj props) \<Rightarrow>
            st\<lparr>mergedData := objectAssign (mergedData st) props,
               successCount := successCount st + 1\<rparr>
        | Some _ \<Rightarrow> st\<lparr>skipCount := skipCount st + 1\<rparr>)"

text \<open>
  The files the loop visits (\<^verbatim>\<open>file.toLowerCase().endsWith('.json')\<close>) and the merged
  object it leaves.
\<close>

definition jsonFiles :: "(jsstring \<times> js_value option) list \<Rightarrow> (jsstring \<times> js_value option) list" where
  "jsonFiles files = filter (\<lambda>entry. endsWith (toLowerCase (fst entry)) (lit ''.json'')) files"

definition mergeAll :: "(jsstring \<times> js_value option) list \<Rightarrow> merge_state" where
  "mergeAll files =
     fold mergeFile (jsonFiles files) \<lparr>mergedData = emptyObject, successCount = 0, skipCount = 0\<rparr>"

text \<open>
  The special handling after the loop:
  \<^verbatim>\<open>if (mergedData.clientSecret && mergedData.expiresAt) { delete mergedData.expiresAt; }\<close>
\<close>

definition dropExpiresAt :: "js_object \<Rightarrow> js_object" where
  "dropExpiresAt m =
     (if truthy (getProp m (lit ''clientSecret'')) \<and> truthy (getProp m (lit ''expiresAt''))
      then deleteProp m (lit ''expiresAt'')
      else m)"

text \<open>
  \<^verbatim>\<open>JSON.stringify(mergedData, null, 2)\<close> turns the object into the text that is
  written. The text is given here by the JSON value it denotes, the value a reader of the
  file parses. Serialising is not the identity: a number that is not finite becomes
  \<^verbatim>\<open>null\<close>, the negative zero becomes \<^verbatim>\<open>0\<close>, and a value that is \<^verbatim>\<open>undefined\<close> or a
  function is left out of an object and becomes \<^verbatim>\<open>null\<close> in an array (\<^verbatim>\<open>JSON.parse\<close>
  builds neither; \<open>Opaque\<close> is treated as a function). Strings, booleans, \<^verbatim>\<open>null\<close> and
  finite numbers are written so that they read back as they were. No value that
  \<^verbatim>\<open>JSON.parse\<close> builds has a callable \<^verbatim>\<open>toJSON\<close>.
\<close>

fun omitted :: "js_value \<Rightarrow> bool" where
  "omitted Undefined = True"
| "omitted (Opaque _) = True"
| "omitted _ = False"

fun jsonOf :: "js_value \<Rightarrow> js_value"
  and jsonOfElements :: "js_value list \<Rightarrow> js_value list"
  and jsonOfProps :: "(jsstring \<times> js_value) list \<Rightarrow> (jsstring \<times> js_value) list" where
  "jsonOf (Num (Finite r)) = Num (Finite r)"
| "jsonOf (Num NegZero) = Num (Finite 0)"
| "jsonOf (Num PosInfinity) = Null"
| "jsonOf (Num NegInfinity) = Null"
| "jsonOf (Num NaN) = Null"
| "jsonOf (Arr xs) = Arr (jsonOfElements xs)"
| "jsonOf (Obj props) = Obj (jsonOfProps props)"
| "jsonOf Undefined = Undefined"
| "jsonOf Null = Null"
| "jsonOf (Bool b) = Bool b"
| "jsonOf (Str s) = Str s"
| "jsonOf (Opaque n) = Opaque n"
| "jsonOfElements [] = []"
| "jsonOfElements (x # xs) = (if omitted x then Null else jsonOf x) # jsonOfElements xs"
| "jsonOfProps [] = []"
| "jsonOfProps (p # ps) =
     (if omitted (snd p) then jsonOfProps ps else (fst p, jsonOf (snd p)) # jsonOfProps ps)"

text \<open>
  The order in which \<^verbatim>\<open>JSON.stringify\<close> walks the own properties of an object: the
  keys that are array indices (canonical decimal numerals up to \<open>2^32 - 2\<close>) in
  ascending order, then the other keys in the order of their creation.
\<close>

definition decimalValue :: "jsstring \<Rightarrow> nat" where
  "decimalValue k = foldl (\<lambda>n c. 10 * n + (c - 48)) 0 k"

definition isArrayIndex :: "jsstring \<Rightarrow> bool" where
  "isArrayIndex k \<longleftrightarrow>
     k \<noteq> [] \<and> list_all (\<lambda>c. 48 \<le> c \<and> c \<le> 57) k \<and> (k = [48] \<or> hd k \<noteq> 48)
     \<and> decimalValue k \<le> 4294967294"

definition ownPropertyOrder :: "(jsstring \<times> js_value) list \<Rightarrow> (jsstring \<times> js_value) list" where
  "ownPropertyOrder props =
     sort_key (\<lambda>p. decimalValue (fst p)) (filter (\<lambda>p. isArrayIndex (fst p)) props)
     @ filter (\<lambda>p. \<not> isArrayIndex (fst p)) props"

definition stringify :: "js_object \<Rightarrow> js_value" where
  "stringify obj = Obj (jsonOfProps (ownPropertyOrder (own obj)))"

text \<open>What a written value holds under a key.\<close>

definition writtenProp :: "js_value \<Rightarrow> jsstring \<Rightarrow> js_value option" where
  "writtenProp w k = (case w of Obj props \<Rightarrow> map_of props k | _ \<Rightarrow> None)"

text \<open>
  The values that serialising leaves as they are: no number that is not finite, no
  negative zero, nothing \<^verbatim>\<open>JSON.parse\<close> cannot build, at any depth.
\<close>

fun plainJson :: "js_value \<Rightarrow> bool"
  and plainElements :: "js_value list \<Rightarrow> bool"
  and plainProps :: "(jsstring \<times> js_value) list \<Rightarrow> bool" where
  "plainJson (Num (Finite r)) = True"
| "plainJson (Num NegZero) = False"
| "plainJson (Num PosInfinity) = False"
| "plainJson (Num NegInfinity) = False"
| "plainJson (Num NaN) = False"
| "plainJson (Arr xs) = plainElements xs"
| "plainJson (Obj props) = plainProps props"
| "plainJson Undefined = False"
| "plainJson Null = True"
| "plainJson (Bool b) = True"
| "plainJson (Str s) = True"
| "plainJson (Opaque n) = False"
| "plainElements [] = True"
| "plainElements (x # xs) = (plainJson x \<and> plainElements xs)"
| "plainProps [] = True"
| "plainProps (p # ps) = (plainJson (snd p) \<and> plainProps ps)"

text \<open>
  The target directory as \<^verbatim>\<open>main\<close> finds it, and how a run ends: by \<^verbatim>\<open>process.exit\<close>
  with a code, or after \<^verbatim>\<open>fs.writeFileSync\<close> has written the serialisation of the
  merged object. \<open>writeOk\<close> tells whether the write succeeds; a failing write, like a
  failing \<^verbatim>\<open>readdirSync\<close>, lands in the outer \<^verbatim>\<open>catch\<close>.
\<close>

datatype directory = Missing | Unlistable | Listing "(jsstring \<times> js_value option) list"

datatype outcome = Exit nat | Written js_value

definition main :: "directory \<Rightarrow> bool \<Rightarrow> outcome" where
  "main targetDir writeOk =
     (case targetDir of
        Missing \<Rightarrow> Exit 1
      | Unlistable \<Rightarrow> Exit 1
      | Listing files \<Rightarrow>
          if jsonFiles files = [] then Exit 0
          else
            let merged = dropExpiresAt (mergedData (mergeAll files)) in
            if own merged = [] then Exit 0
            else if writeOk then Written (stringify merged)
            else Exit 1)"

text \<open>Four directory listings for concrete runs.\<close>

definition idcTokenFiles :: "(jsstring \<times> js_value option) list" where
  "idcTokenFiles =
     [(lit ''kiro-idc-1-auth-token.json'',
         Some (Obj [(lit ''accessToken'', Str (lit ''aoa'')),
                    (lit ''expiresAt'', Str (lit ''2026-01-06T14:22:16.130Z'')),
                    (lit ''clientId'', Str (lit ''e8pq''))])),
      (lit ''notes.txt'', None),
      (lit ''Client.JSON'', Some (Obj [(lit ''clientSecret'', Str (lit ''eyJr''))])),
      (lit ''merge-kiro-17-auth-token.json'',
         Some (Obj [(lit ''expiresAt'', Str (lit ''old''))])),
      (lit ''list.json'', Some (Arr [Num (Finite 1)])),
      (lit ''broken.json'', None)]"

definition socialTokenFiles :: "(jsstring \<times> js_value option) list" where
  "socialTokenFiles =
     [(lit ''kiro-2-auth-token.json'',
         Some (Obj [(lit ''accessToken'', Str (lit ''aoa'')),
                    (lit ''expiresAt'', Str (lit ''2026-01-08T06:30:59.065Z'')),
                    (lit ''clientSecret'', Str [])]))]"

definition overflowFiles :: "(jsstring \<times> js_value option) list" where
  "overflowFiles =
     [(lit ''token.json'',
         Some (Obj [(lit ''accessToken'', Str (lit ''aoa'')),
                    (lit ''expiresAt'', Num PosInfinity)]))]"

definition protoFiles :: "(jsstring \<times> js_value option) list" where
  "protoFiles =
     [(lit ''a.json'',
         Some (Obj [(lit ''__proto__'', Obj [(lit ''clientSecret'', Str (lit ''s''))]),
                    (lit ''expiresAt'', Str (lit ''t'')),
                    (lit ''region'', Str (lit ''us-east-1''))]))]"

section \<open>The Fallback Router's candidate list (specification section 4.4, step 1)\<close>

text \<open>
  Modelled from the spec: the configuration the Fallback Router reads (section 6), the
  router itself not being among the source files. \<^verbatim>\<open>providerFallbackChain\<close> and
  \<^verbatim>\<open>modelFallbackMapping\<close> are JSON objects from a key to an array of strings:
  association lists, a missing key meaning no fallback.
\<close>

record router_config =
  providerFallbackChain :: "(string \<times> string list) list"
  modelFallbackMapping :: "(string \<times> string list) list"

definition fallbacksOf :: "(string \<times> string list) list \<Rightarrow> string \<Rightarrow> string list" where
  "fallbacksOf table k = (case map_of table k of None \<Rightarrow> [] | Some vs \<Rightarrow> vs)"

text \<open>
  Modelled from the spec: the expansion of a request into its candidates, which belongs
  to the Fallback Router and is not among the source files. The list starts with the
  requested provider and model, goes on with the model's fallbacks on the same provider,
  and then visits each provider of the requested provider's fallback chain, expanded
  through the same model entries.
\<close>

definition expandCandidates :: "router_config \<Rightarrow> string \<Rightarrow> string \<Rightarrow> (string \<times> string) list" where
  "expandCandidates cfg providerType model =
     concat (map (\<lambda>p. map (\<lambda>m. (p, m)) (model # fallbacksOf (modelFallbackMapping cfg) model))
                 (providerType # fallbacksOf (providerFallbackChain cfg) providerType))"

text \<open>
  Modelled from the spec: the candidate list the router builds, missing from the source
  files like the rest of the router. The spec demands a list without a repeated pair for
  every configuration, and a configuration may name a provider or a model twice, so a
  pair that is already listed is passed over and the first occurrence keeps its place.
\<close>

fun addCandidates :: "(string \<times> string) list \<Rightarrow> (string \<times> string) list \<Rightarrow> (string \<times> string) list" where
  "addCandidates acc [] = acc"
| "addCandidates acc (c # cs) = addCandidates (if c \<in> set acc then acc else acc @ [c]) cs"

definition buildCandidates :: "router_config \<Rightarrow> string \<Rightarrow> string \<Rightarrow> (string \<times> string) list" where
  "buildCandidates cfg providerType model = addCandidates [] (expandCandidates cfg providerType model)"

text \<open>The configuration of the specification's example, and one that repeats itself.\<close>

definition kiroConfig :: router_config where
  "kiroConfig =
     \<lparr>providerFallbackChain = [(''kiro'', [''gemini''])],
      modelFallbackMapping = [(''gpt-4'', [''gpt-4-fallback''])]\<rparr>"

definition loopingConfig :: router_config where
  "loopingConfig =
     \<lparr>providerFallbackChain = [(''kiro'', [''gemini'', ''kiro''])],
      modelFallbackMapping = [(''gpt-4'', [''gpt-4'', ''gpt-4-fallback''])]\<rparr>"

section \<open>The Provider Pool (specification sections 3 and 4.3)\<close>

text \<open>
  Modelled from the spec: the data of the Provider Pool (section 3), which is not among
  the source files. A credential carries its health state; time stamps and the cool-down
  are integers (milliseconds). The pool maps a provider type to its credentials in
  selection order (priority, then insertion).
\<close>

record credential =
  credId :: string
  providerType :: string
  authMaterial :: string
  errorCount :: nat
  disabledUntil :: "int option"
  priority :: int

type_synonym provider_pool = "string \<Rightarrow> credential list"

record pool_config =
  MAX_ERROR_COUNT :: nat
  coolDown :: int

text \<open>
  Modelled from the spec: \<^verbatim>\<open>select(providerType, excludeIds)\<close> of the Provider Pool,
  which is not among the source files. It returns the first credential in the pool's
  order that is not disabled (no \<^verbatim>\<open>disabledUntil\<close> set) and not excluded, \<open>None\<close> for
  \<^verbatim>\<open>NoneAvailable\<close>.
\<close>

definition select :: "provider_pool \<Rightarrow> string \<Rightarrow> string list \<Rightarrow> credential option" where
  "select pool p excludeIds =
     find (\<lambda>c. disabledUntil c = None \<and> credId c \<notin> set excludeIds) (pool p)"

text \<open>
  Modelled from the spec: \<^verbatim>\<open>recordFailure(credentialId, retryable)\<close> at time \<open>now\<close>. A
  retryable failure increments \<^verbatim>\<open>errorCount\<close> and, when the configured maximum is
  reached, sets \<^verbatim>\<open>disabledUntil\<close> to now plus the cool-down; any other failure changes
  nothing.
\<close>

definition failCredential :: "pool_config \<Rightarrow> int \<Rightarrow> credential \<Rightarrow> credential" where
  "failCredential cfg now c =
     (if MAX_ERROR_COUNT cfg \<le> errorCount c + 1
      then c\<lparr>errorCount := errorCount c + 1, disabledUntil := Some (now + coolDown cfg)\<rparr>
      else c\<lparr>errorCount := errorCount c + 1\<rparr>)"

definition recordFailure ::
  "pool_config \<Rightarrow> int \<Rightarrow> string \<Rightarrow> bool \<Rightarrow> provider_pool \<Rightarrow> provider_pool" where
  "recordFailure cfg now cid retryable pool =
     (if retryable
      then (\<lambda>p. map (\<lambda>c. if credId c = cid then failCredential cfg now c else c) (pool p))
      else pool)"

text \<open>
  Modelled from the spec: \<^verbatim>\<open>recordSuccess(credentialId)\<close> at time \<open>now\<close> resets
  \<^verbatim>\<open>errorCount\<close> and clears \<^verbatim>\<open>disabledUntil\<close> once the cool-down has elapsed.
\<close>

definition succeedCredential :: "int \<Rightarrow> credential \<Rightarrow> credential" where
  "succeedCredential now c =
     (case disabledUntil c of
        Some t \<Rightarrow> if t \<le> now then c\<lparr>errorCount := 0, disabledUntil := None\<rparr>
                  else c\<lparr>errorCount := 0\<rparr>
      | None \<Rightarrow> c\<lparr>errorCount := 0\<rparr>)"

definition recordSuccess :: "int \<Rightarrow> string \<Rightarrow> provider_pool \<Rightarrow> provider_pool" where
  "recordSuccess now cid pool =
     (\<lambda>p. map (\<lambda>c. if credId c = cid then succeedCredential now c else c) (pool p))"

text \<open>
  Modelled from the spec: one attempt of the Fallback Router as the pool sees it
  (section 4.4, steps 2, 4 and 5). The router selects a credential for the candidate's
  provider, leaving out the ones it names, calls upstream, and records the outcome
  against the credential it selected; with no credential available nothing is recorded.
  The state is the pool and the log of the credentials attempted so far.
\<close>

datatype attempt_result = Succeeded | Failed bool

record attempt =
  onProvider :: string
  excluding :: "string list"
  atTime :: int
  result :: attempt_result

definition runAttempt ::
  "pool_config \<Rightarrow> attempt \<Rightarrow> provider_pool \<times> string list \<Rightarrow> provider_pool \<times> string list" where
  "runAttempt cfg a st =
     (case select (fst st) (onProvider a) (excluding a) of
        None \<Rightarrow> st
      | Some c \<Rightarrow>
          ((case result a of
              Succeeded \<Rightarrow> recordSuccess (atTime a) (credId c) (fst st)
            | Failed retryable \<Rightarrow> recordFailure cfg (atTime a) (credId c) retryable (fst st)),
           snd st @ [credId c]))"

definition runAttempts ::
  "pool_config \<Rightarrow> attempt list \<Rightarrow> provider_pool \<times> string list \<Rightarrow> provider_pool \<times> string list" where
  "runAttempts cfg as st = fold (runAttempt cfg) as st"

text \<open>
  Modelled from the spec: a credential is disabled when \<^verbatim>\<open>disabledUntil\<close> is set
  (section 3); a credential id is disabled in a pool when every credential bearing it is.
\<close>

definition disabledIn :: "provider_pool \<Rightarrow> string \<Rightarrow> bool" where
  "disabledIn pool cid \<longleftrightarrow> (\<forall>p. \<forall>c \<in> set (pool p). credId c = cid \<longrightarrow> disabledUntil c \<noteq> None)"

text \<open>A pool with two credentials for one provider, and the threshold of the example.\<close>

definition kiroCredential :: "string \<Rightarrow> int \<Rightarrow> credential" where
  "kiroCredential cid prio =
     \<lparr>credId = cid, providerType = ''kiro'', authMaterial = ''token'', errorCount = 0,
      disabledUntil = None, priority = prio\<rparr>"

definition kiroPool :: provider_pool where
  "kiroPool p = (if p = ''kiro'' then [kiroCredential ''cred-1'' 1, kiroCredential ''cred-2'' 2] else [])"

definition threeStrikes :: pool_config where
  "threeStrikes = \<lparr>MAX_ERROR_COUNT = 3, coolDown = 60000\<rparr>"

definition failingAttempt :: "int \<Rightarrow> attempt" where
  "failingAttempt t = \<lparr>onProvider = ''kiro'', excluding = [], atTime = t, result = Failed True\<rparr>"

section \<open>Properties\<close>

subsection \<open>Properties of the restart backoff\<close>

text \<open>
  Claim C8. The delay before the next restart attempt is a function of the attempt
  number and of the configuration alone: when the worker has been restarted \<open>n - 1\<close>
  times (so the attempt being scheduled is number \<open>n \<ge> 1\<close>) and attempts remain
  (\<open>n - 1 < maxRestartAttempts\<close>), the timer is armed with
  \<open>restartDelay * 2 ^ (n - 1)\<close> milliseconds, capped at the fixed maximum of 30000;
  nothing else of the worker status influences it. With no attempt left no timer is
  armed. For the source's configuration the delays of attempts 1 to 10 are
  1000, 2000, 4000, 8000, 16000 and then 30000.
\<close>

theorem scheduleRestart_backoff:
  "(\<forall>n cfg ws. 1 \<le> n \<and> restartCount ws = n - 1 \<and> n - 1 < maxRestartAttempts cfg \<longrightarrow>
      scheduleRestart cfg ws = Some (min (restartDelay cfg * 2 ^ (n - 1)) 30000))
   \<and> (\<forall>cfg ws ws'. restartCount ws = restartCount ws' \<longrightarrow>
      scheduleRestart cfg ws = scheduleRestart cfg ws')
   \<and> (\<forall>cfg ws. maxRestartAttempts cfg \<le> restartCount ws \<longrightarrow> scheduleRestart cfg ws = None)
   \<and> (\<forall>cfg ws d. scheduleRestart cfg ws = Some d \<longrightarrow> d \<le> 30000)
   \<and> map (\<lambda>k. scheduleRestart config \<lparr>pid = None, startTime = None, restartCount = k,
                lastRestartTime = None, isRestarting = False\<rparr>) [0, 1, 2, 3, 4, 5, 6, 7, 8, 9, 10]
       = [Some 1000, Some 2000, Some 4000, Some 8000, Some 16000, Some 30000, Some 30000,
          Some 30000, Some 30000, Some 30000, None]"
  by (simp add: scheduleRestart_def config_def)

theorem scheduleRestart_backoff_witness:
  "scheduleRestart config \<lparr>pid = Some 4242, startTime = None, restartCount = 3,
      lastRestartTime = None, isRestarting = False\<rparr> = Some 8000
   \<and> scheduleRestart config \<lparr>pid = None, startTime = None, restartCount = 12,
      lastRestartTime = None, isRestarting = True\<rparr> = None"
proof -
  let ?ws = "\<lparr>pid = Some 4242, startTime = None, restartCount = 3,
      lastRestartTime = None, isRestarting = False\<rparr>"
  let ?ws' = "\<lparr>pid = None, startTime = None, restartCount = 12,
      lastRestartTime = None, isRestarting = True\<rparr>"
  have a: "1 \<le> (4::nat) \<and> restartCount ?ws = 4 - 1 \<and> 4 - 1 < maxRestartAttempts config"
    by (simp add: config_def)
  have b: "maxRestartAttempts config \<le> restartCount ?ws'"
    by (simp add: config_def)
  from scheduleRestart_backoff have
    "scheduleRestart config ?ws = Some (min (restartDelay config * 2 ^ (4 - 1)) 30000)"
    using a by blast
  moreover from scheduleRestart_backoff have "scheduleRestart config ?ws' = None"
    using b by blast
  ultimately show ?thesis by (simp add: config_def)
qed

subsection \<open>Properties of \<open>parseProxyUrl\<close>\<close>

lemma all_dropWhile_iff: "(\<forall>x\<in>set (dropWhile P xs). P x) \<longleftrightarrow> (\<forall>x\<in>set xs. P x)"
  by (induction xs) auto

text \<open>A string trims to the empty string exactly when it consists of white space.\<close>

lemma trim_Nil_iff: "trim s = [] \<longleftrightarrow> (\<forall>c\<in>set s. isWhiteSpace c)"
  by (simp add: trim_def dropWhile_eq_Nil_conv all_dropWhile_iff)

lemma parseProxyUrl_Str:
  "parseProxyUrl env (Str s) =
     (if trim s = [] then Inr None
      else case parseProxyUrl_try env (trim s) of Inl e \<Rightarrow> Inr None | Inr r \<Rightarrow> Inr r)"
  by (cases "s = []") (simp_all add: parseProxyUrl_def trim_def)

lemma parseProxyUrl_not_Str: "(\<forall>s. v \<noteq> Str s) \<Longrightarrow> parseProxyUrl env v = Inr None"
  by (cases v) (simp_all add: parseProxyUrl_def)

lemma parseProxyUrl_returns: "\<exists>r. parseProxyUrl env v = Inr r"
  by (cases v) (simp_all add: parseProxyUrl_not_Str parseProxyUrl_Str split: sum.splits)

lemma parseProxyUrl_proxyType:
  "parseProxyUrl env v = Inr (Some cfg) \<Longrightarrow>
     proxyType cfg = lit ''socks'' \<or> proxyType cfg = lit ''http''"
  by (cases v)
     (auto simp: parseProxyUrl_not_Str parseProxyUrl_Str parseProxyUrl_try_def Let_def
           split: sum.splits option.splits if_splits)

lemma lit_http_neq_socks:
  "lit ''http:'' \<noteq> lit ''socks5:''" "lit ''https:'' \<noteq> lit ''socks5:''"
  "lit ''http:'' \<noteq> lit ''socks4:''" "lit ''https:'' \<noteq> lit ''socks4:''"
  "lit ''http:'' \<noteq> lit ''socks:''" "lit ''https:'' \<noteq> lit ''socks:''"
  by (simp_all add: lit_def)

lemma try_socks:
  "newURL env t = Some u \<Longrightarrow>
   toLowerCase (protocol u) = lit ''socks5:'' \<or> toLowerCase (protocol u) = lit ''socks4:''
     \<or> toLowerCase (protocol u) = lit ''socks:'' \<Longrightarrow>
   parseProxyUrl_try env t =
     (case newSocksProxyAgent env t of
        None \<Rightarrow> Inl SocksAgentError
      | Some a \<Rightarrow> Inr (Some \<lparr>httpAgent = a, httpsAgent = a, proxyType = lit ''socks''\<rparr>))"
  by (simp add: parseProxyUrl_try_def)

lemma try_http:
  "newURL env t = Some u \<Longrightarrow>
   toLowerCase (protocol u) = lit ''http:'' \<or> toLowerCase (protocol u) = lit ''https:'' \<Longrightarrow>
   parseProxyUrl_try env t =
     (case newHttpProxyAgent env t of
        None \<Rightarrow> Inl HttpAgentError
      | Some a \<Rightarrow>
          (case newHttpsProxyAgent env t of
             None \<Rightarrow> Inl HttpsAgentError
           | Some b \<Rightarrow> Inr (Some \<lparr>httpAgent = a, httpsAgent = b, proxyType = lit ''http''\<rparr>)))"
  by (auto simp: parseProxyUrl_try_def lit_http_neq_socks)

text \<open>
  Claim C10, as the source has it. \<^verbatim>\<open>parseProxyUrl\<close> never throws: every input gives
  \<^verbatim>\<open>null\<close> or a configuration. For a string that is not all white space and whose
  trimmed form \<^verbatim>\<open>new URL\<close> accepts, the result is a configuration of type
  \<^verbatim>\<open>'socks'\<close> when the scheme is socks5, socks4 or socks and the SOCKS agent's
  constructor returns, and one of type \<^verbatim>\<open>'http'\<close> when the scheme is http or https
  and both HTTP agents' constructors return. The result is \<^verbatim>\<open>null\<close> for a value
  that is not a string, for an empty or white-space string, for a string \<^verbatim>\<open>new URL\<close>
  rejects, for any other scheme, and also when an agent's constructor throws: the
  constructors run inside the \<^verbatim>\<open>try\<close> block. A configuration has no other type
  than these two.
\<close>

theorem parseProxyUrl_cases:
  "(\<exists>r. parseProxyUrl env v = Inr r)
   \<and> (\<forall>s u a. v = Str s \<and> \<not> (\<forall>c\<in>set s. isWhiteSpace c) \<and> newURL env (trim s) = Some u
        \<and> toLowerCase (protocol u) \<in> {lit ''socks5:'', lit ''socks4:'', lit ''socks:''}
        \<and> newSocksProxyAgent env (trim s) = Some a \<longrightarrow>
        parseProxyUrl env v =
          Inr (Some \<lparr>httpAgent = a, httpsAgent = a, proxyType = lit ''socks''\<rparr>))
   \<and> (\<forall>s u a b. v = Str s \<and> \<not> (\<forall>c\<in>set s. isWhiteSpace c) \<and> newURL env (trim s) = Some u
        \<and> toLowerCase (protocol u) \<in> {lit ''http:'', lit ''https:''}
        \<and> newHttpProxyAgent env (trim s) = Some a \<and> newHttpsProxyAgent env (trim s) = Some b \<longrightarrow>
        parseProxyUrl env v =
          Inr (Some \<lparr>httpAgent = a, httpsAgent = b, proxyType = lit ''http''\<rparr>))
   \<and> ((\<forall>s. v \<noteq> Str s) \<longrightarrow> parseProxyUrl env v = Inr None)
   \<and> (\<forall>s. v = Str s \<and> (\<forall>c\<in>set s. isWhiteSpace c) \<longrightarrow> parseProxyUrl env v = Inr None)
   \<and> (\<forall>s. v = Str s \<and> newURL env (trim s) = None \<longrightarrow> parseProxyUrl env v = Inr None)
   \<and> (\<forall>s u. v = Str s \<and> newURL env (trim s) = Some u
        \<and> toLowerCase (protocol u) \<notin> {lit ''socks5:'', lit ''socks4:'', lit ''socks:'',
                                          lit ''http:'', lit ''https:''} \<longrightarrow>
        parseProxyUrl env v = Inr None)
   \<and> (\<forall>s u. v = Str s \<and> newURL env (trim s) = Some u
        \<and> toLowerCase (protocol u) \<in> {lit ''socks5:'', lit ''socks4:'', lit ''socks:''}
        \<and> newSocksProxyAgent env (trim s) = None \<longrightarrow>
        parseProxyUrl env v = Inr None)
   \<and> (\<forall>s u. v = Str s \<and> newURL env (trim s) = Some u
        \<and> toLowerCase (protocol u) \<in> {lit ''http:'', lit ''https:''}
        \<and> (newHttpProxyAgent env (trim s) = None \<or> newHttpsProxyAgent env (trim s) = None) \<longrightarrow>
        parseProxyUrl env v = Inr None)
   \<and> (\<forall>cfg. parseProxyUrl env v = Inr (Some cfg) \<longrightarrow>
        proxyType cfg = lit ''socks'' \<or> proxyType cfg = lit ''http'')"
proof (intro conjI allI impI)
  show "\<exists>r. parseProxyUrl env v = Inr r"
    by (rule parseProxyUrl_returns)
next
  fix s u a
  assume "v = Str s \<and> \<not> (\<forall>c\<in>set s. isWhiteSpace c) \<and> newURL env (trim s) = Some u
        \<and> toLowerCase (protocol u) \<in> {lit ''socks5:'', lit ''socks4:'', lit ''socks:''}
        \<and> newSocksProxyAgent env (trim s) = Some a"
  then show "parseProxyUrl env v =
          Inr (Some \<lparr>httpAgent = a, httpsAgent = a, proxyType = lit ''socks''\<rparr>)"
    by (simp add: parseProxyUrl_Str trim_Nil_iff try_socks)
next
  fix s u a b
  assume "v = Str s \<and> \<not> (\<forall>c\<in>set s. isWhiteSpace c) \<and> newURL env (trim s) = Some u
        \<and> toLowerCase (protocol u) \<in> {lit ''http:'', lit ''https:''}
        \<and> newHttpProxyAgent env (trim s) = Some a \<and> newHttpsProxyAgent env (trim s) = Some b"
  then show "parseProxyUrl env v =
          Inr (Some \<lparr>httpAgent = a, httpsAgent = b, proxyType = lit ''http''\<rparr>)"
    by (simp add: parseProxyUrl_Str trim_Nil_iff try_http)
next
  assume "\<forall>s. v \<noteq> Str s"
  then show "parseProxyUrl env v = Inr None"
    by (rule parseProxyUrl_not_Str)
next
  fix s
  assume "v = Str s \<and> (\<forall>c\<in>set s. isWhiteSpace c)"
  then show "parseProxyUrl env v = Inr None"
    by (simp add: parseProxyUrl_Str trim_Nil_iff)
next
  fix s
  assume "v = Str s \<and> newURL env (trim s) = None"
  then show "parseProxyUrl env v = Inr None"
    by (simp add: parseProxyUrl_Str parseProxyUrl_try_def)
next
  fix s u
  assume "v = Str s \<and> newURL env (trim s) = Some u
        \<and> toLowerCase (protocol u) \<notin> {lit ''socks5:'', lit ''socks4:'', lit ''socks:'',
                                          lit ''http:'', lit ''https:''}"
  then show "parseProxyUrl env v = Inr None"
    by (simp add: parseProxyUrl_Str parseProxyUrl_try_def)
next
  fix s u
  assume "v = Str s \<and> newURL env (trim s) = Some u
        \<and> toLowerCase (protocol u) \<in> {lit ''socks5:'', lit ''socks4:'', lit ''socks:''}
        \<and> newSocksProxyAgent env (trim s) = None"
  then show "parseProxyUrl env v = Inr None"
    by (simp add: parseProxyUrl_Str try_socks)
next
  fix s u
  assume "v = Str s \<and> newURL env (trim s) = Some u
        \<and> toLowerCase (protocol u) \<in> {lit ''http:'', lit ''https:''}
        \<and> (newHttpProxyAgent env (trim s) = None \<or> newHttpsProxyAgent env (trim s) = None)"
  then show "parseProxyUrl env v = Inr None"
    by (auto simp: parseProxyUrl_Str try_http split: option.splits)
next
  fix cfg
  assume "parseProxyUrl env v = Inr (Some cfg)"
  then show "proxyType cfg = lit ''socks'' \<or> proxyType cfg = lit ''http''"
    by (rule parseProxyUrl_proxyType)
qed

lemma trim_example: "trim (lit '' SOCKS5://127.0.0.1:1080 '') = lit ''SOCKS5://127.0.0.1:1080''"
  by (simp add: trim_def lit_def isWhiteSpace_def)

lemma schemeURL_example:
  "schemeURL (lit ''SOCKS5://127.0.0.1:1080'') = Some \<lparr>protocol = lit ''socks5:''\<rparr>"
  by (simp add: schemeURL_def lit_def isSchemeUnit_def toLowerCase_def toLowerCaseUnit_def)

lemma not_blank_example: "\<not> (\<forall>c\<in>set (lit '' SOCKS5://127.0.0.1:1080 ''). isWhiteSpace c)"
  by (simp add: lit_def isWhiteSpace_def)

lemma toLowerCase_socks5: "toLowerCase (lit ''socks5:'') = lit ''socks5:''"
  by (simp add: lit_def toLowerCase_def toLowerCaseUnit_def)

theorem parseProxyUrl_cases_witness:
  "parseProxyUrl acceptingEnv (Str (lit '' SOCKS5://127.0.0.1:1080 '')) =
     Inr (Some \<lparr>httpAgent = 1, httpsAgent = 1, proxyType = lit ''socks''\<rparr>)
   \<and> parseProxyUrl acceptingEnv (Num (Finite 7890)) = Inr None
   \<and> parseProxyUrl acceptingEnv (Str [32, 9, 10]) = Inr None"
proof (intro conjI)
  let ?s = "lit '' SOCKS5://127.0.0.1:1080 ''"
  have pre: "Str ?s = Str ?s \<and> \<not> (\<forall>c\<in>set ?s. isWhiteSpace c)
      \<and> newURL acceptingEnv (trim ?s) = Some \<lparr>protocol = lit ''socks5:''\<rparr>
      \<and> toLowerCase (protocol \<lparr>protocol = lit ''socks5:''\<rparr>)
          \<in> {lit ''socks5:'', lit ''socks4:'', lit ''socks:''}
      \<and> newSocksProxyAgent acceptingEnv (trim ?s) = Some 1"
    by (simp add: trim_example schemeURL_example not_blank_example toLowerCase_socks5
        acceptingEnv_def)
  show "parseProxyUrl acceptingEnv (Str ?s) =
      Inr (Some \<lparr>httpAgent = 1, httpsAgent = 1, proxyType = lit ''socks''\<rparr>)"
    by (rule parseProxyUrl_cases [of acceptingEnv "Str ?s", THEN conjunct2, THEN conjunct1,
          rule_format, OF pre])
next
  have "\<forall>s. Num (Finite 7890) \<noteq> Str s"
    by simp
  then show "parseProxyUrl acceptingEnv (Num (Finite 7890)) = Inr None"
    by (rule parseProxyUrl_cases [of acceptingEnv "Num (Finite 7890)", THEN conjunct2,
          THEN conjunct2, THEN conjunct2, THEN conjunct1, THEN mp])
next
  have "Str [32, 9, 10] = Str [32, 9, 10] \<and> (\<forall>c\<in>set [32, 9, 10]. isWhiteSpace c)"
    by (simp add: isWhiteSpace_def)
  then show "parseProxyUrl acceptingEnv (Str [32, 9, 10]) = Inr None"
    by (rule parseProxyUrl_cases [of acceptingEnv "Str [32, 9, 10]", THEN conjunct2,
          THEN conjunct2, THEN conjunct2, THEN conjunct2, THEN conjunct1, rule_format])
qed

text \<open>
  Claim C10 as stated promises a configuration for every valid URL with a SOCKS scheme
  and lists no other case of \<^verbatim>\<open>null\<close> than a bad input, an unparseable URL or another
  scheme. Here the string is a URL with scheme socks5 and the result is \<^verbatim>\<open>null\<close>,
  because the agent's constructor threw inside the \<^verbatim>\<open>try\<close> block.
\<close>

theorem parseProxyUrl_socks_counterexample:
  "newURL rejectingEnv (trim (lit ''socks5://%zz@127.0.0.1:1080'')) =
     Some \<lparr>protocol = lit ''socks5:''\<rparr>
   \<and> parseProxyUrl rejectingEnv (Str (lit ''socks5://%zz@127.0.0.1:1080'')) = Inr None"
  by (simp add: parseProxyUrl_Str trim_def lit_def isWhiteSpace_def parseProxyUrl_try_def
      rejectingEnv_def schemeURL_def isSchemeUnit_def toLowerCase_def toLowerCaseUnit_def)

subsection \<open>Properties of the merger\<close>

lemma clientSecret_neq_expiresAt: "lit ''clientSecret'' \<noteq> lit ''expiresAt''"
  by (simp add: lit_def)

lemma mergeAll_no_json: "jsonFiles files = [] \<Longrightarrow> own (mergedData (mergeAll files)) = []"
  by (simp add: mergeAll_def emptyObject_def)

lemma getProp_own: "map_of (own m) k = Some v \<Longrightarrow> getProp m k = v"
  by (simp add: getProp_def)

text \<open>The own keys of the merged object are pairwise different.\<close>

lemma own_setPrototype: "own (setPrototype obj v) = own obj"
  by (cases v) simp_all

lemma distinct_setProp:
  "distinct (map fst (own obj)) \<Longrightarrow> distinct (map fst (own (setProp obj k v)))"
  by (simp add: setProp_def own_setPrototype distinct_update)

lemma distinct_objectAssign:
  "distinct (map fst (own obj)) \<Longrightarrow> distinct (map fst (own (objectAssign obj props)))"
  unfolding objectAssign_def
  by (induction props arbitrary: obj) (simp_all add: distinct_setProp split: prod.splits)

lemma distinct_mergeFile:
  "distinct (map fst (own (mergedData st))) \<Longrightarrow>
   distinct (map fst (own (mergedData (mergeFile entry st))))"
  by (simp add: mergeFile_def Let_def distinct_objectAssign
           split: option.splits js_value.splits)

lemma distinct_fold_mergeFile:
  "distinct (map fst (own (mergedData st))) \<Longrightarrow>
   distinct (map fst (own (mergedData (fold mergeFile entries st))))"
  by (induction entries arbitrary: st) (simp_all add: distinct_mergeFile)

lemma distinct_mergeAll: "distinct (map fst (own (mergedData (mergeAll files))))"
  unfolding mergeAll_def by (rule distinct_fold_mergeFile) (simp add: emptyObject_def)

text \<open>Serialising looks every key up where the object has it.\<close>

lemma set_ownPropertyOrder: "set (ownPropertyOrder props) = set props"
  by (auto simp: ownPropertyOrder_def)

lemma distinct_ownPropertyOrder:
  assumes "distinct (map fst props)"
  shows "distinct (map fst (ownPropertyOrder props))"
proof -
  have inj: "inj_on fst (set props)" and d: "distinct props"
    using assms by (simp_all add: distinct_map)
  have "distinct (ownPropertyOrder props)"
    using d by (auto simp: ownPropertyOrder_def)
  moreover have "inj_on fst (set (ownPropertyOrder props))"
    using inj by (simp add: set_ownPropertyOrder)
  ultimately show ?thesis by (simp add: distinct_map)
qed

lemma map_of_ownPropertyOrder:
  assumes "distinct (map fst props)"
  shows "map_of (ownPropertyOrder props) k = map_of props k"
proof (cases "map_of props k")
  case None
  then have "k \<notin> fst ` set (ownPropertyOrder props)"
    by (simp add: set_ownPropertyOrder map_of_eq_None_iff)
  then have "map_of (ownPropertyOrder props) k = None"
    by (metis map_of_eq_None_iff)
  then show ?thesis
    using None by simp
next
  case (Some v)
  then have "(k, v) \<in> set (ownPropertyOrder props)"
    by (simp add: set_ownPropertyOrder map_of_SomeD)
  then show ?thesis
    using Some distinct_ownPropertyOrder [OF assms] by simp
qed

lemma jsonOfProps_keys: "fst ` set (jsonOfProps props) \<subseteq> fst ` set props"
  by (induction props) auto

lemma map_of_jsonOfProps:
  "distinct (map fst props) \<Longrightarrow>
   map_of (jsonOfProps props) k =
     (case map_of props k of
        None \<Rightarrow> None
      | Some v \<Rightarrow> if omitted v then None else Some (jsonOf v))"
proof (induction props)
  case Nil
  then show ?case by simp
next
  case (Cons p ps)
  have "map_of (jsonOfProps ps) (fst p) = None"
    using Cons.prems jsonOfProps_keys [of ps] by (auto simp: map_of_eq_None_iff)
  then show ?case
    using Cons by (cases p) auto
qed

lemma writtenProp_stringify:
  "distinct (map fst (own obj)) \<Longrightarrow>
   writtenProp (stringify obj) k =
     (case map_of (own obj) k of
        None \<Rightarrow> None
      | Some v \<Rightarrow> if omitted v then None else Some (jsonOf v))"
  by (simp add: writtenProp_def stringify_def map_of_jsonOfProps distinct_ownPropertyOrder
        map_of_ownPropertyOrder)

text \<open>Serialising leaves a plain value as it is.\<close>

lemma plain_not_omitted: "plainJson v \<Longrightarrow> \<not> omitted v"
  by (cases v) simp_all

lemma jsonOf_plain:
  "plainJson v \<Longrightarrow> jsonOf v = v"
  "plainElements xs \<Longrightarrow> jsonOfElements xs = xs"
  "plainProps props \<Longrightarrow> jsonOfProps props = props"
  by (induction v and xs and props rule: jsonOf_jsonOfElements_jsonOfProps.induct)
     (auto simp: plain_not_omitted)

lemma main_Listing:
  "main (Listing files) writeOk =
     (if own (dropExpiresAt (mergedData (mergeAll files))) = [] then Exit 0
      else if writeOk then Written (stringify (dropExpiresAt (mergedData (mergeAll files))))
      else Exit 1)"
  by (auto simp: main_def Let_def dropExpiresAt_def deleteProp_def mergeAll_no_json)

lemma dropExpiresAt_cases:
  "dropExpiresAt m =
     (if truthy (getProp m (lit ''clientSecret'')) \<and> truthy (getProp m (lit ''expiresAt''))
      then deleteProp m (lit ''expiresAt'') else m)"
  by (simp add: dropExpiresAt_def)

lemma own_deleteProp: "own (deleteProp m k) = AList.delete k (own m)"
  by (simp add: deleteProp_def)

lemma own_clientSecret_kept:
  "map_of (own m) (lit ''clientSecret'') = Some c \<Longrightarrow> own (dropExpiresAt m) \<noteq> []"
proof -
  assume a: "map_of (own m) (lit ''clientSecret'') = Some c"
  have "map_of (own (dropExpiresAt m)) (lit ''clientSecret'') = Some c"
    using a clientSecret_neq_expiresAt
    by (simp add: dropExpiresAt_cases own_deleteProp AList.delete_conv')
  then show ?thesis by auto
qed

lemma writtenProp_deleted:
  assumes "distinct (map fst (own m))"
  shows "writtenProp (stringify (deleteProp m k)) k = None"
    and "k' \<noteq> k \<Longrightarrow> writtenProp (stringify (deleteProp m k)) k' = writtenProp (stringify m) k'"
proof -
  have d: "distinct (map fst (own (deleteProp m k)))"
    using assms by (simp add: own_deleteProp distinct_delete)
  show "writtenProp (stringify (deleteProp m k)) k = None"
    by (simp add: writtenProp_stringify [OF d] own_deleteProp AList.delete_conv')
  show "writtenProp (stringify (deleteProp m k)) k' = writtenProp (stringify m) k'" if "k' \<noteq> k"
    using that
    by (simp add: writtenProp_stringify [OF d] writtenProp_stringify [OF assms] own_deleteProp
          AList.delete_conv')
qed

text \<open>
  Claim C9, as the source has it. Let \<open>m\<close> be the merged object the loop leaves. When the
  reads \<^verbatim>\<open>m.clientSecret\<close> and \<^verbatim>\<open>m.expiresAt\<close> are both truthy, what is written is the
  serialisation of \<open>m\<close> without its own \<^verbatim>\<open>expiresAt\<close>: the written object has no
  \<^verbatim>\<open>expiresAt\<close> and holds under every other key what the serialisation of \<open>m\<close> holds.
  When \<^verbatim>\<open>m.clientSecret\<close> is \<^verbatim>\<open>undefined\<close> or another falsy value, nothing is removed
  and what is written is the serialisation of \<open>m\<close>: an \<^verbatim>\<open>expiresAt\<close> of \<open>m\<close> is written
  as \<^verbatim>\<open>JSON.stringify\<close> writes its value. That is the value itself when it is plain (a
  string, a boolean, \<^verbatim>\<open>null\<close>, a finite number other than the negative zero, or an array or
  object of such), but \<^verbatim>\<open>null\<close> for an infinite number and \<^verbatim>\<open>0\<close> for the negative zero.
  Both runs do write when the write succeeds: a truthy own \<^verbatim>\<open>clientSecret\<close> keeps the
  object non-empty after the removal, and so does an \<^verbatim>\<open>expiresAt\<close> that stays. The
  fields are the property reads that the source performs; they also see a
  \<^verbatim>\<open>clientSecret\<close> inherited through a \<^verbatim>\<open>__proto__\<close> key of an input file (\<open>proto_run\<close>
  below).
\<close>

theorem main_clientSecret_expiresAt:
  "(\<forall>w. truthy (getProp (mergedData (mergeAll files)) (lit ''clientSecret''))
         \<and> truthy (getProp (mergedData (mergeAll files)) (lit ''expiresAt''))
         \<and> main (Listing files) writeOk = Written w \<longrightarrow>
         w = stringify (deleteProp (mergedData (mergeAll files)) (lit ''expiresAt''))
         \<and> writtenProp w (lit ''expiresAt'') = None
         \<and> (\<forall>k. k \<noteq> lit ''expiresAt'' \<longrightarrow>
               writtenProp w k = writtenProp (stringify (mergedData (mergeAll files))) k))
   \<and> (\<forall>w. \<not> truthy (getProp (mergedData (mergeAll files)) (lit ''clientSecret''))
         \<and> main (Listing files) writeOk = Written w \<longrightarrow>
         w = stringify (mergedData (mergeAll files))
         \<and> (\<forall>e. map_of (own (mergedData (mergeAll files))) (lit ''expiresAt'') = Some e \<longrightarrow>
               writtenProp w (lit ''expiresAt'') = (if omitted e then None else Some (jsonOf e))))
   \<and> (\<forall>e. plainJson e \<longrightarrow> \<not> omitted e \<and> jsonOf e = e)
   \<and> jsonOf (Num PosInfinity) = Null \<and> jsonOf (Num NegInfinity) = Null
   \<and> jsonOf (Num NegZero) = Num (Finite 0)
   \<and> (\<forall>c e. map_of (own (mergedData (mergeAll files))) (lit ''clientSecret'') = Some c \<and> truthy c
         \<and> map_of (own (mergedData (mergeAll files))) (lit ''expiresAt'') = Some e \<and> truthy e \<longrightarrow>
         main (Listing files) True =
           Written (stringify (deleteProp (mergedData (mergeAll files)) (lit ''expiresAt''))))
   \<and> (\<forall>e. \<not> truthy (getProp (mergedData (mergeAll files)) (lit ''clientSecret''))
         \<and> map_of (own (mergedData (mergeAll files))) (lit ''expiresAt'') = Some e \<longrightarrow>
         main (Listing files) True = Written (stringify (mergedData (mergeAll files))))"
proof (intro conjI allI impI)
  fix w
  assume a: "truthy (getProp (mergedData (mergeAll files)) (lit ''clientSecret''))
         \<and> truthy (getProp (mergedData (mergeAll files)) (lit ''expiresAt''))
         \<and> main (Listing files) writeOk = Written w"
  then show w: "w = stringify (deleteProp (mergedData (mergeAll files)) (lit ''expiresAt''))"
    by (simp add: main_Listing dropExpiresAt_cases split: if_splits)
  show "writtenProp w (lit ''expiresAt'') = None"
    unfolding w by (rule writtenProp_deleted(1) [OF distinct_mergeAll])
  show "writtenProp w k = writtenProp (stringify (mergedData (mergeAll files))) k"
    if "k \<noteq> lit ''expiresAt''" for k
    unfolding w using that by (rule writtenProp_deleted(2) [OF distinct_mergeAll])
next
  fix w
  assume a: "\<not> truthy (getProp (mergedData (mergeAll files)) (lit ''clientSecret''))
         \<and> main (Listing files) writeOk = Written w"
  then show w: "w = stringify (mergedData (mergeAll files))"
    by (simp add: main_Listing dropExpiresAt_cases split: if_splits)
  show "writtenProp w (lit ''expiresAt'') = (if omitted e then None else Some (jsonOf e))"
    if "map_of (own (mergedData (mergeAll files))) (lit ''expiresAt'') = Some e" for e
    unfolding w using that by (simp add: writtenProp_stringify [OF distinct_mergeAll])
next
  fix e
  assume "plainJson e"
  then show "\<not> omitted e" and "jsonOf e = e"
    by (simp_all add: jsonOf_plain plain_not_omitted)
next
  show "jsonOf (Num PosInfinity) = Null" "jsonOf (Num NegInfinity) = Null"
    "jsonOf (Num NegZero) = Num (Finite 0)"
    by simp_all
next
  fix c e
  assume a: "map_of (own (mergedData (mergeAll files))) (lit ''clientSecret'') = Some c \<and> truthy c
         \<and> map_of (own (mergedData (mergeAll files))) (lit ''expiresAt'') = Some e \<and> truthy e"
  then have "own (dropExpiresAt (mergedData (mergeAll files))) \<noteq> []"
    using own_clientSecret_kept by blast
  moreover have "dropExpiresAt (mergedData (mergeAll files)) =
      deleteProp (mergedData (mergeAll files)) (lit ''expiresAt'')"
    using a by (simp add: dropExpiresAt_cases getProp_own)
  ultimately show "main (Listing files) True =
      Written (stringify (deleteProp (mergedData (mergeAll files)) (lit ''expiresAt'')))"
    by (simp add: main_Listing)
next
  fix e
  assume a: "\<not> truthy (getProp (mergedData (mergeAll files)) (lit ''clientSecret''))
         \<and> map_of (own (mergedData (mergeAll files))) (lit ''expiresAt'') = Some e"
  then have "own (mergedData (mergeAll files)) \<noteq> []"
    by auto
  with a show "main (Listing files) True = Written (stringify (mergedData (mergeAll files)))"
    by (simp add: main_Listing dropExpiresAt_cases)
qed

lemmas merger_eval = jsonFiles_def mergeAll_def mergeFile_def objectAssign_def setProp_def
  emptyObject_def startsWith_def endsWith_def toLowerCase_def toLowerCaseUnit_def lit_def

lemmas stringify_eval = stringify_def ownPropertyOrder_def isArrayIndex_def deleteProp_def
  AList.delete_eq lit_def

lemma idc_merged:
  "mergedData (mergeAll idcTokenFiles) =
     \<lparr>own = [(lit ''accessToken'', Str (lit ''aoa'')),
             (lit ''expiresAt'', Str (lit ''2026-01-06T14:22:16.130Z'')),
             (lit ''clientId'', Str (lit ''e8pq'')),
             (lit ''clientSecret'', Str (lit ''eyJr''))],
      proto = ObjectPrototype\<rparr>"
  by (simp add: idcTokenFiles_def merger_eval)

lemma social_merged:
  "mergedData (mergeAll socialTokenFiles) =
     \<lparr>own = [(lit ''accessToken'', Str (lit ''aoa'')),
             (lit ''expiresAt'', Str (lit ''2026-01-08T06:30:59.065Z'')),
             (lit ''clientSecret'', Str [])],
      proto = ObjectPrototype\<rparr>"
  by (simp add: socialTokenFiles_def merger_eval)

lemma overflow_merged:
  "mergedData (mergeAll overflowFiles) =
     \<lparr>own = [(lit ''accessToken'', Str (lit ''aoa'')), (lit ''expiresAt'', Num PosInfinity)],
      proto = ObjectPrototype\<rparr>"
  by (simp add: overflowFiles_def merger_eval)

lemma proto_merged:
  "mergedData (mergeAll protoFiles) =
     \<lparr>own = [(lit ''expiresAt'', Str (lit ''t'')), (lit ''region'', Str (lit ''us-east-1''))],
      proto = ValuePrototype (Obj [(lit ''clientSecret'', Str (lit ''s''))])\<rparr>"
  by (simp add: protoFiles_def merger_eval)

theorem main_clientSecret_expiresAt_witness:
  "main (Listing idcTokenFiles) True =
     Written (Obj [(lit ''accessToken'', Str (lit ''aoa'')),
                   (lit ''clientId'', Str (lit ''e8pq'')),
                   (lit ''clientSecret'', Str (lit ''eyJr''))])
   \<and> main (Listing socialTokenFiles) True =
     Written (Obj [(lit ''accessToken'', Str (lit ''aoa'')),
                   (lit ''expiresAt'', Str (lit ''2026-01-08T06:30:59.065Z'')),
                   (lit ''clientSecret'', Str [])])
   \<and> writtenProp (stringify (mergedData (mergeAll socialTokenFiles))) (lit ''expiresAt'') =
     Some (Str (lit ''2026-01-08T06:30:59.065Z''))"
proof (intro conjI)
  have pre: "map_of (own (mergedData (mergeAll idcTokenFiles))) (lit ''clientSecret'')
        = Some (Str (lit ''eyJr'')) \<and> truthy (Str (lit ''eyJr''))
      \<and> map_of (own (mergedData (mergeAll idcTokenFiles))) (lit ''expiresAt'')
        = Some (Str (lit ''2026-01-06T14:22:16.130Z'')) \<and> truthy (Str (lit ''2026-01-06T14:22:16.130Z''))"
    by (simp add: idc_merged) (simp add: lit_def)
  have "main (Listing idcTokenFiles) True =
      Written (stringify (deleteProp (mergedData (mergeAll idcTokenFiles)) (lit ''expiresAt'')))"
    by (rule main_clientSecret_expiresAt [of idcTokenFiles, THEN conjunct2, THEN conjunct2,
          THEN conjunct2, THEN conjunct2, THEN conjunct2, THEN conjunct2, THEN conjunct1,
          rule_format, OF pre])
  then show "main (Listing idcTokenFiles) True =
     Written (Obj [(lit ''accessToken'', Str (lit ''aoa'')),
                   (lit ''clientId'', Str (lit ''e8pq'')),
                   (lit ''clientSecret'', Str (lit ''eyJr''))])"
    by (simp add: idc_merged) (simp add: stringify_eval)
next
  have pre: "\<not> truthy (getProp (mergedData (mergeAll socialTokenFiles)) (lit ''clientSecret''))
      \<and> map_of (own (mergedData (mergeAll socialTokenFiles))) (lit ''expiresAt'')
        = Some (Str (lit ''2026-01-08T06:30:59.065Z''))"
    by (simp add: social_merged getProp_def) (simp add: lit_def)
  have written: "main (Listing socialTokenFiles) True =
      Written (stringify (mergedData (mergeAll socialTokenFiles)))"
    by (rule main_clientSecret_expiresAt [of socialTokenFiles, THEN conjunct2, THEN conjunct2,
          THEN conjunct2, THEN conjunct2, THEN conjunct2, THEN conjunct2, THEN conjunct2,
          rule_format, OF pre])
  then show "main (Listing socialTokenFiles) True =
     Written (Obj [(lit ''accessToken'', Str (lit ''aoa'')),
                   (lit ''expiresAt'', Str (lit ''2026-01-08T06:30:59.065Z'')),
                   (lit ''clientSecret'', Str [])])"
    by (simp add: social_merged) (simp add: stringify_eval)
  have pre2: "\<not> truthy (getProp (mergedData (mergeAll socialTokenFiles)) (lit ''clientSecret''))
      \<and> main (Listing socialTokenFiles) True =
          Written (stringify (mergedData (mergeAll socialTokenFiles)))"
    using pre written by simp
  have "writtenProp (stringify (mergedData (mergeAll socialTokenFiles))) (lit ''expiresAt'') =
      (if omitted (Str (lit ''2026-01-08T06:30:59.065Z'')) then None
       else Some (jsonOf (Str (lit ''2026-01-08T06:30:59.065Z''))))"
    using pre
    by (intro main_clientSecret_expiresAt [of socialTokenFiles True, THEN conjunct2,
          THEN conjunct1, rule_format, OF pre2, THEN conjunct2, rule_format]) simp
  then show "writtenProp (stringify (mergedData (mergeAll socialTokenFiles))) (lit ''expiresAt'') =
     Some (Str (lit ''2026-01-08T06:30:59.065Z''))"
    by simp
qed

text \<open>
  Claim C9 as stated has \<^verbatim>\<open>expiresAt\<close> written through unchanged whenever
  \<^verbatim>\<open>clientSecret\<close> is absent. Here a file holds \<^verbatim>\<open>"expiresAt": 1e400\<close>, which
  \<^verbatim>\<open>JSON.parse\<close> reads as infinity, and no file holds a \<^verbatim>\<open>clientSecret\<close>: the merged
  object has the infinite \<^verbatim>\<open>expiresAt\<close>, and the file that is written has
  \<^verbatim>\<open>"expiresAt": null\<close>.
\<close>

theorem main_expiresAt_counterexample:
  "getProp (mergedData (mergeAll overflowFiles)) (lit ''clientSecret'') = Undefined
   \<and> map_of (own (mergedData (mergeAll overflowFiles))) (lit ''expiresAt'') = Some (Num PosInfinity)
   \<and> main (Listing overflowFiles) True =
       Written (Obj [(lit ''accessToken'', Str (lit ''aoa'')), (lit ''expiresAt'', Null)])"
  by (simp add: overflow_merged main_Listing dropExpiresAt_cases getProp_def)
     (simp add: stringify_eval)

text \<open>
  A run on a file with a \<^verbatim>\<open>__proto__\<close> key: the merged object has no own
  \<^verbatim>\<open>clientSecret\<close>, the read finds the inherited one, and \<^verbatim>\<open>expiresAt\<close> is removed.
\<close>

lemma proto_run:
  "main (Listing protoFiles) True = Written (Obj [(lit ''region'', Str (lit ''us-east-1''))])"
  by (simp add: main_Listing dropExpiresAt_cases proto_merged getProp_def)
     (simp add: stringify_eval)

subsection \<open>Properties of the candidate list\<close>

lemma addCandidates_distinct: "distinct acc \<Longrightarrow> distinct (addCandidates acc cs)"
  by (induction cs arbitrary: acc) auto

lemma addCandidates_set: "set (addCandidates acc cs) = set acc \<union> set cs"
  by (induction cs arbitrary: acc) auto

lemma addCandidates_extends: "\<exists>rest. addCandidates acc cs = acc @ rest"
proof (induction cs arbitrary: acc)
  case Nil
  then show ?case by simp
next
  case (Cons c cs)
  obtain rest where "addCandidates (if c \<in> set acc then acc else acc @ [c]) cs =
      (if c \<in> set acc then acc else acc @ [c]) @ rest"
    using Cons.IH by blast
  then show ?case by (cases "c \<in> set acc") auto
qed

lemma addCandidates_distinct_id:
  "distinct (acc @ cs) \<Longrightarrow> addCandidates acc cs = acc @ cs"
  by (induction cs arbitrary: acc) auto

lemma expandCandidates_head:
  "\<exists>rest. expandCandidates cfg p m = (p, m) # rest"
  by (simp add: expandCandidates_def)

lemma buildCandidates_head: "\<exists>rest. buildCandidates cfg p m = (p, m) # rest"
proof -
  obtain xs where xs: "expandCandidates cfg p m = (p, m) # xs"
    using expandCandidates_head by blast
  obtain rest where "addCandidates [(p, m)] xs = [(p, m)] @ rest"
    using addCandidates_extends by blast
  then show ?thesis by (simp add: buildCandidates_def xs)
qed

text \<open>
  Claim C2. The candidate list is a function of the configuration and the request, so
  the same inputs give the same list. It never holds a pair twice, it holds exactly the
  pairs of the expansion, and it starts with the requested provider and model. Where the
  expansion has no repetition the list is the expansion itself, in its order. For the
  specification's example the list is (kiro, gpt-4), (kiro, gpt-4-fallback),
  (gemini, gpt-4), (gemini, gpt-4-fallback), and a configuration that names its own
  provider and model again gives the same four pairs.
\<close>

theorem buildCandidates_no_duplicates:
  "distinct (buildCandidates cfg p m)
   \<and> set (buildCandidates cfg p m) = set (expandCandidates cfg p m)
   \<and> (\<exists>rest. buildCandidates cfg p m = (p, m) # rest)
   \<and> (distinct (expandCandidates cfg p m) \<longrightarrow>
        buildCandidates cfg p m = expandCandidates cfg p m)
   \<and> buildCandidates kiroConfig ''kiro'' ''gpt-4'' =
        [(''kiro'', ''gpt-4''), (''kiro'', ''gpt-4-fallback''),
         (''gemini'', ''gpt-4''), (''gemini'', ''gpt-4-fallback'')]
   \<and> buildCandidates loopingConfig ''kiro'' ''gpt-4'' =
        [(''kiro'', ''gpt-4''), (''kiro'', ''gpt-4-fallback''),
         (''gemini'', ''gpt-4''), (''gemini'', ''gpt-4-fallback'')]"
proof (intro conjI impI)
  show "distinct (buildCandidates cfg p m)"
    by (simp add: buildCandidates_def addCandidates_distinct)
  show "set (buildCandidates cfg p m) = set (expandCandidates cfg p m)"
    by (simp add: buildCandidates_def addCandidates_set)
  show "\<exists>rest. buildCandidates cfg p m = (p, m) # rest"
    by (rule buildCandidates_head)
  show "buildCandidates cfg p m = expandCandidates cfg p m"
    if "distinct (expandCandidates cfg p m)"
    using that addCandidates_distinct_id [of "[]"] by (simp add: buildCandidates_def)
  show "buildCandidates kiroConfig ''kiro'' ''gpt-4'' =
        [(''kiro'', ''gpt-4''), (''kiro'', ''gpt-4-fallback''),
         (''gemini'', ''gpt-4''), (''gemini'', ''gpt-4-fallback'')]"
    by (simp add: buildCandidates_def expandCandidates_def fallbacksOf_def kiroConfig_def)
  show "buildCandidates loopingConfig ''kiro'' ''gpt-4'' =
        [(''kiro'', ''gpt-4''), (''kiro'', ''gpt-4-fallback''),
         (''gemini'', ''gpt-4''), (''gemini'', ''gpt-4-fallback'')]"
    by (simp add: buildCandidates_def expandCandidates_def fallbacksOf_def loopingConfig_def)
qed

lemma kiro_expansion:
  "expandCandidates kiroConfig ''kiro'' ''gpt-4'' =
     [(''kiro'', ''gpt-4''), (''kiro'', ''gpt-4-fallback''),
      (''gemini'', ''gpt-4''), (''gemini'', ''gpt-4-fallback'')]"
  by (simp add: expandCandidates_def fallbacksOf_def kiroConfig_def)

theorem buildCandidates_no_duplicates_witness:
  "distinct (expandCandidates kiroConfig ''kiro'' ''gpt-4'')
   \<and> buildCandidates kiroConfig ''kiro'' ''gpt-4'' = expandCandidates kiroConfig ''kiro'' ''gpt-4''
   \<and> distinct (buildCandidates loopingConfig ''kiro'' ''gpt-4'')"
proof (intro conjI)
  show d: "distinct (expandCandidates kiroConfig ''kiro'' ''gpt-4'')"
    by (simp add: kiro_expansion)
  show "buildCandidates kiroConfig ''kiro'' ''gpt-4'' = expandCandidates kiroConfig ''kiro'' ''gpt-4''"
    using d by (rule buildCandidates_no_duplicates [of kiroConfig "''kiro''" "''gpt-4''",
          THEN conjunct2, THEN conjunct2, THEN conjunct2, THEN conjunct1, THEN mp])
  show "distinct (buildCandidates loopingConfig ''kiro'' ''gpt-4'')"
    by (rule buildCandidates_no_duplicates [THEN conjunct1])
qed

subsection \<open>Properties of the pool\<close>

lemma failCredential_fields:
  "credId (failCredential cfg now c) = credId c"
  "errorCount (failCredential cfg now c) = errorCount c + 1"
  "disabledUntil c \<noteq> None \<Longrightarrow> disabledUntil (failCredential cfg now c) \<noteq> None"
  "MAX_ERROR_COUNT cfg \<le> errorCount c + 1 \<Longrightarrow> disabledUntil (failCredential cfg now c) \<noteq> None"
  by (simp_all add: failCredential_def)

lemma fold_failCredential_fields:
  "credId (fold (failCredential cfg) nows c) = credId c"
  "errorCount (fold (failCredential cfg) nows c) = errorCount c + length nows"
  by (induction nows arbitrary: c) (simp_all add: failCredential_fields)

lemma fold_failCredential_disabled:
  assumes "nows \<noteq> []" and "MAX_ERROR_COUNT cfg \<le> errorCount c + length nows"
  shows "disabledUntil (fold (failCredential cfg) nows c) \<noteq> None"
proof -
  obtain ts t where nows: "nows = ts @ [t]"
    using assms(1) by (metis rev_exhaust)
  have "MAX_ERROR_COUNT cfg \<le> errorCount (fold (failCredential cfg) ts c) + 1"
    using assms(2) by (simp add: nows fold_failCredential_fields)
  then show ?thesis
    by (simp add: nows failCredential_fields)
qed

lemma fold_recordFailure:
  "fold (\<lambda>now. recordFailure cfg now cid True) nows pool p =
     map (\<lambda>c. if credId c = cid then fold (failCredential cfg) nows c else c) (pool p)"
proof (induction nows arbitrary: pool)
  case Nil
  show ?case by (simp add: map_idI)
next
  case (Cons t ts)
  have "fold (\<lambda>now. recordFailure cfg now cid True) (t # ts) pool p =
      fold (\<lambda>now. recordFailure cfg now cid True) ts (recordFailure cfg t cid True pool) p"
    by simp
  also have "\<dots> = map (\<lambda>c. if credId c = cid then fold (failCredential cfg) ts c else c)
      (recordFailure cfg t cid True pool p)"
    by (rule Cons.IH)
  also have "\<dots> = map (\<lambda>c. if credId c = cid then fold (failCredential cfg) (t # ts) c else c)
      (pool p)"
    by (simp add: recordFailure_def failCredential_fields)
  finally show ?case .
qed

lemma consecutive_failures_disable:
  assumes "nows \<noteq> []"
    and "\<forall>q. \<forall>c \<in> set (pool q). credId c = cid \<longrightarrow> MAX_ERROR_COUNT cfg \<le> errorCount c + length nows"
  shows "disabledIn (fold (\<lambda>now. recordFailure cfg now cid True) nows pool) cid"
proof -
  have "disabledUntil c' \<noteq> None"
    if "c' \<in> set (fold (\<lambda>now. recordFailure cfg now cid True) nows pool q)" "credId c' = cid"
    for q c'
  proof -
    from that(1) obtain c where c: "c \<in> set (pool q)"
      and c': "c' = (if credId c = cid then fold (failCredential cfg) nows c else c)"
      unfolding fold_recordFailure by auto
    have "credId c = cid"
      using that(2) c' by (simp add: fold_failCredential_fields split: if_splits)
    then show ?thesis
      using assms c c' by (simp add: fold_failCredential_disabled)
  qed
  then show ?thesis
    unfolding disabledIn_def by blast
qed

lemma select_Some:
  "select pool p ex = Some c \<Longrightarrow> c \<in> set (pool p) \<and> disabledUntil c = None \<and> credId c \<notin> set ex"
  unfolding select_def by (auto simp: find_Some_iff)

lemma disabledIn_select: "disabledIn pool cid \<Longrightarrow> select pool p ex = Some c \<Longrightarrow> credId c \<noteq> cid"
  by (metis disabledIn_def select_Some)

lemma disabledIn_recordFailure:
  "disabledIn pool cid \<Longrightarrow> disabledIn (recordFailure cfg now other retryable pool) cid"
  by (auto simp: disabledIn_def recordFailure_def failCredential_def)

lemma succeedCredential_credId: "credId (succeedCredential now c) = credId c"
  by (simp add: succeedCredential_def split: option.splits)

lemma disabledIn_recordSuccess:
  "disabledIn pool cid \<Longrightarrow> other \<noteq> cid \<Longrightarrow> disabledIn (recordSuccess now other pool) cid"
  by (auto simp: disabledIn_def recordSuccess_def succeedCredential_credId)

lemma runAttempt_keeps_disabled:
  assumes "disabledIn (fst st) cid" and "cid \<notin> set (snd st)"
  shows "disabledIn (fst (runAttempt cfg a st)) cid \<and> cid \<notin> set (snd (runAttempt cfg a st))"
proof (cases "select (fst st) (onProvider a) (excluding a)")
  case None
  then show ?thesis using assms by (simp add: runAttempt_def)
next
  case (Some c)
  then have "credId c \<noteq> cid"
    using assms(1) disabledIn_select by blast
  then show ?thesis
    using assms Some
    by (cases "result a")
       (simp_all add: runAttempt_def disabledIn_recordFailure disabledIn_recordSuccess)
qed

lemma runAttempts_keep_disabled:
  "disabledIn (fst st) cid \<Longrightarrow> cid \<notin> set (snd st) \<Longrightarrow>
   disabledIn (fst (runAttempts cfg as st)) cid \<and> cid \<notin> set (snd (runAttempts cfg as st))"
  unfolding runAttempts_def
  by (induction as arbitrary: st) (simp_all add: runAttempt_keeps_disabled)


lemmas pool_eval = runAttempts_def runAttempt_def select_def recordFailure_def
  failCredential_def kiroPool_def kiroCredential_def threeStrikes_def failingAttempt_def

lemma three_strikes_log:
  "snd (runAttempts threeStrikes
          [failingAttempt 10, failingAttempt 20, failingAttempt 30, failingAttempt 40]
          (kiroPool, [])) = [''cred-1'', ''cred-1'', ''cred-1'', ''cred-2'']"
  by (simp add: pool_eval)

lemma three_strikes_pool:
  "map (\<lambda>c. (credId c, errorCount c, disabledUntil c))
       (fst (runAttempts threeStrikes [failingAttempt 10, failingAttempt 20, failingAttempt 30]
               (kiroPool, [])) ''kiro'')
     = [(''cred-1'', 3, Some 60030), (''cred-2'', 0, None)]"
  by (simp add: pool_eval)

text \<open>
  Claim C6. Consecutive retryable failures that take a credential's \<^verbatim>\<open>errorCount\<close> to
  the configured maximum leave it disabled (\<^verbatim>\<open>disabledUntil\<close> set). A disabled
  credential is returned by no \<^verbatim>\<open>select\<close>, and it stays disabled and unattempted
  through every further sequence of router attempts, whatever their providers,
  exclusions, times and outcomes: only an intervention from outside the router's
  attempts can bring it back. With a maximum of 3, three failing attempts hit the first
  credential, disable it at the third, and the fourth attempt selects the other one.
\<close>

theorem disabled_credential_not_selected:
  "(\<forall>nows. nows \<noteq> []
       \<and> (\<forall>q. \<forall>c \<in> set (pool q). credId c = cid \<longrightarrow>
              MAX_ERROR_COUNT cfg \<le> errorCount c + length nows) \<longrightarrow>
       disabledIn (fold (\<lambda>now. recordFailure cfg now cid True) nows pool) cid)
   \<and> (disabledIn pool cid \<longrightarrow> (\<forall>p ex c. select pool p ex = Some c \<longrightarrow> credId c \<noteq> cid))
   \<and> (disabledIn pool cid \<longrightarrow>
       (\<forall>as. cid \<notin> set (snd (runAttempts cfg as (pool, [])))
           \<and> disabledIn (fst (runAttempts cfg as (pool, []))) cid))
   \<and> snd (runAttempts threeStrikes
          [failingAttempt 10, failingAttempt 20, failingAttempt 30, failingAttempt 40]
          (kiroPool, [])) = [''cred-1'', ''cred-1'', ''cred-1'', ''cred-2'']
   \<and> map (\<lambda>c. (credId c, errorCount c, disabledUntil c))
       (fst (runAttempts threeStrikes [failingAttempt 10, failingAttempt 20, failingAttempt 30]
               (kiroPool, [])) ''kiro'')
     = [(''cred-1'', 3, Some 60030), (''cred-2'', 0, None)]"
proof (intro conjI allI impI)
  fix nows :: "int list"
  assume "nows \<noteq> []
       \<and> (\<forall>q. \<forall>c \<in> set (pool q). credId c = cid \<longrightarrow>
              MAX_ERROR_COUNT cfg \<le> errorCount c + length nows)"
  then show "disabledIn (fold (\<lambda>now. recordFailure cfg now cid True) nows pool) cid"
    using consecutive_failures_disable by blast
next
  fix p ex c
  assume "disabledIn pool cid" and "select pool p ex = Some c"
  then show "credId c \<noteq> cid"
    by (rule disabledIn_select)
next
  fix as
  assume d: "disabledIn pool cid"
  have "disabledIn (fst (runAttempts cfg as (pool, []))) cid
      \<and> cid \<notin> set (snd (runAttempts cfg as (pool, [])))"
    by (rule runAttempts_keep_disabled) (simp_all add: d)
  then show "cid \<notin> set (snd (runAttempts cfg as (pool, [])))"
    and "disabledIn (fst (runAttempts cfg as (pool, []))) cid"
    by simp_all
next
  show "snd (runAttempts threeStrikes
          [failingAttempt 10, failingAttempt 20, failingAttempt 30, failingAttempt 40]
          (kiroPool, [])) = [''cred-1'', ''cred-1'', ''cred-1'', ''cred-2'']"
    by (rule three_strikes_log)
next
  show "map (\<lambda>c. (credId c, errorCount c, disabledUntil c))
       (fst (runAttempts threeStrikes [failingAttempt 10, failingAttempt 20, failingAttempt 30]
               (kiroPool, [])) ''kiro'')
     = [(''cred-1'', 3, Some 60030), (''cred-2'', 0, None)]"
    by (rule three_strikes_pool)
qed

theorem disabled_credential_not_selected_witness:
  "disabledIn (fold (\<lambda>now. recordFailure threeStrikes now ''cred-1'' True) [10, 20, 30] kiroPool)
     ''cred-1''
   \<and> ''cred-1'' \<notin> set (snd (runAttempts threeStrikes [failingAttempt 40, failingAttempt 50]
        (fold (\<lambda>now. recordFailure threeStrikes now ''cred-1'' True) [10, 20, 30] kiroPool, [])))
   \<and> select (fold (\<lambda>now. recordFailure threeStrikes now ''cred-1'' True) [10, 20, 30] kiroPool)
        ''kiro'' [] \<noteq> Some (kiroCredential ''cred-1'' 1)"
proof -
  let ?pool = "fold (\<lambda>now. recordFailure threeStrikes now ''cred-1'' True) [10, 20, 30] kiroPool"
  have pre: "[10, 20, 30] \<noteq> ([] :: int list)
       \<and> (\<forall>q. \<forall>c \<in> set (kiroPool q). credId c = ''cred-1'' \<longrightarrow>
              MAX_ERROR_COUNT threeStrikes \<le> errorCount c + length [10, 20, 30 :: int])"
    by (simp add: kiroPool_def kiroCredential_def threeStrikes_def)
  have d: "disabledIn ?pool ''cred-1''"
    by (rule disabled_credential_not_selected [of kiroPool "''cred-1''" threeStrikes,
          THEN conjunct1, rule_format, OF pre])
  have "\<forall>as. ''cred-1'' \<notin> set (snd (runAttempts threeStrikes as (?pool, [])))
           \<and> disabledIn (fst (runAttempts threeStrikes as (?pool, []))) ''cred-1''"
    using d by (rule disabled_credential_not_selected [of ?pool "''cred-1''" threeStrikes,
          THEN conjunct2, THEN conjunct2, THEN conjunct1, THEN mp])
  then have log: "''cred-1'' \<notin> set (snd (runAttempts threeStrikes
      [failingAttempt 40, failingAttempt 50] (?pool, [])))"
    by blast
  have "\<forall>p ex c. select ?pool p ex = Some c \<longrightarrow> credId c \<noteq> ''cred-1''"
    using d by (rule disabled_credential_not_selected [of ?pool "''cred-1''" threeStrikes,
          THEN conjunct2, THEN conjunct1, THEN mp])
  moreover have "credId (kiroCredential ''cred-1'' 1) = ''cred-1''"
    by (simp add: kiroCredential_def)
  ultimately have sel: "select ?pool ''kiro'' [] \<noteq> Some (kiroCredential ''cred-1'' 1)"
    by blast
  from d log sel show ?thesis by blast
qed

end
